theory Spec2Isabelle
  imports Main
begin

section \<open>Values of the running page\<close>

text \<open>
  The dashboard is TypeScript: its types are erased when it runs, and the integrations page
  builds its records with object spread and rest destructuring. An object is therefore a
  map from property names to values, and a missing property (\<open>undefined\<close>) is \<open>None\<close>.

  A JSON document is what \<open>JSON.parse\<close> returns. Only the truthiness of a number is
  ever looked at, so numbers are integers here.
\<close>

datatype json =
    JNull
  | JBool bool
  | JNum int
  | JStr string
  | JArr "json list"
  | JObj "string \<Rightarrow> json option"

text \<open>The icon components that the integrations page takes from \<open>@mui/icons-material\<close>
  for its catalog; a component is the one kind of value on the page that is not JSON data.\<close>

datatype mui_icon = Chat | Email | Webhook | IntegrationInstructions

datatype jsval = Data json | Component mui_icon

type_synonym integration = "string \<Rightarrow> jsval option"

text \<open>Truthiness, as \<open>!x\<close>, \<open>x || y\<close> and \<open>x ? a : b\<close> see it.\<close>

fun truthy_json :: "json \<Rightarrow> bool" where
  "truthy_json JNull = False"
| "truthy_json (JBool b) = b"
| "truthy_json (JNum n) = (n \<noteq> 0)"
| "truthy_json (JStr s) = (s \<noteq> [])"
| "truthy_json (JArr xs) = True"
| "truthy_json (JObj m) = True"

fun truthy :: "jsval option \<Rightarrow> bool" where
  "truthy None = False"
| "truthy (Some (Data j)) = truthy_json j"
| "truthy (Some (Component c)) = True"

text \<open>
  \<open>a === b\<close>. Primitive values are compared by what they are. Two arrays or two objects are
  equal only when they are the same allocation, which the model does not track: it answers
  \<open>False\<close> for them. Every comparison of the page is between \<open>id\<close> properties, and
  those are strings (\<open>defaultIntegrations_id\<close> below).
\<close>

fun is_reference :: "jsval option \<Rightarrow> bool" where
  "is_reference (Some (Data (JArr xs))) = True"
| "is_reference (Some (Data (JObj m))) = True"
| "is_reference v = False"

definition strict_equals :: "jsval option \<Rightarrow> jsval option \<Rightarrow> bool" where
  "strict_equals a b = (\<not> is_reference a \<and> a = b)"

section \<open>The route guard (ProtectedRoute.tsx, App.tsx)\<close>

text \<open>
  Modelled from the spec: the type of \<open>state.auth.user\<close>, the signed-in user of the Redux
  store; the slice that declares it (\<open>store/slices/authSlice\<close>) is not among the sources.
  The fields are those of the specification's Principal, under the names of the \<open>User\<close>
  interface of the admin page, by which the guard, the profile page and the integrations
  page read them. The user is \<open>null\<close> (here \<open>None\<close>) when nobody is signed in.
\<close>

record user =
  user_id :: string
  username :: string
  email :: string
  full_name :: "string option"
  role :: string
  requested_role :: "string option"
  role_approved :: bool
  is_active :: bool
  created_at :: string

text \<open>What a route element renders: \<open><Navigate to=... replace />\<close> or the children.\<close>

datatype 'c element = Navigate string bool | Fragment 'c

definition array_includes :: "string list \<Rightarrow> string \<Rightarrow> bool" where
  "array_includes allowedRoles r = (r \<in> set allowedRoles)"

definition ProtectedRoute :: "'c \<Rightarrow> string list \<Rightarrow> user option \<Rightarrow> 'c element" where
  "ProtectedRoute children allowedRoles user =
     (case user of
        None \<Rightarrow> Navigate ''/login'' True
      | Some u \<Rightarrow>
          if \<not> array_includes allowedRoles (role u) then Navigate ''/'' True
          else Fragment children)"

text \<open>The two guarded routes of \<open>App\<close>.\<close>

datatype screen = Integrations | AdminManagement

definition integrations_route :: "user option \<Rightarrow> screen element" where
  "integrations_route user = ProtectedRoute Integrations [''admin'', ''analyst''] user"

definition admin_route :: "user option \<Rightarrow> screen element" where
  "admin_route user = ProtectedRoute AdminManagement [''admin''] user"

text \<open>Profile.tsx: \<open>user?.requested_role === "admin" && !user?.role_approved\<close>.\<close>

definition hasPendingAdminRequest :: "user option \<Rightarrow> bool" where
  "hasPendingAdminRequest user =
     (case user of
        None \<Rightarrow> False
      | Some u \<Rightarrow> requested_role u = Some ''admin'' \<and> \<not> role_approved u)"

text \<open>A user record for the examples: signed up asking for admin, not yet approved.\<close>

definition pending_user :: "string \<Rightarrow> user" where
  "pending_user r =
     \<lparr>user_id = ''u1'', username = ''pat'', email = ''pat@example.com'', full_name = None,
      role = r, requested_role = Some ''admin'', role_approved = False, is_active = True,
      created_at = ''2025-01-01''\<rparr>"

section \<open>Browser storage and JSON text\<close>

text \<open>
  \<open>localStorage\<close> maps keys to strings. The page only asks two things of a stored string:
  whether it is empty (\<open>if (saved)\<close>), and what \<open>JSON.parse\<close> makes of it. A stored string is
  therefore one of: the empty string; a non-empty text that \<open>JSON.parse\<close> rejects; the text of
  a JSON document, standing for the document \<open>JSON.parse\<close> returns. \<open>JSON.stringify\<close> of a
  document gives a text that parses back to it. \<open>setItem\<close> is taken to succeed (a full or
  disabled storage is outside the model; the page only logs that failure).
\<close>

datatype dom_string = Empty_text | Not_json | Json_text json

type_synonym local_storage = "string \<Rightarrow> dom_string option"

datatype js_error = SyntaxError | TypeError

definition getItem :: "local_storage \<Rightarrow> string \<Rightarrow> dom_string option" where
  "getItem ls key = ls key"

definition setItem :: "local_storage \<Rightarrow> string \<Rightarrow> dom_string \<Rightarrow> local_storage" where
  "setItem ls key v = ls(key \<mapsto> v)"

fun JSON_parse :: "dom_string \<Rightarrow> js_error + json" where
  "JSON_parse Empty_text = Inl SyntaxError"
| "JSON_parse Not_json = Inl SyntaxError"
| "JSON_parse (Json_text v) = Inr v"

definition JSON_stringify :: "json \<Rightarrow> dom_string" where
  "JSON_stringify v = Json_text v"

fun truthy_text :: "dom_string \<Rightarrow> bool" where
  "truthy_text Empty_text = False"
| "truthy_text Not_json = True"
| "truthy_text (Json_text v) = True"

section \<open>The integrations page (Integrations.tsx)\<close>

subsection \<open>The catalog\<close>

definition str :: "string \<Rightarrow> jsval" where
  "str s = Data (JStr s)"

definition boolean :: "bool \<Rightarrow> jsval" where
  "boolean b = Data (JBool b)"

definition slack :: integration where
  "slack = [''id'' \<mapsto> str ''slack'', ''name'' \<mapsto> str ''Slack'',
     ''description'' \<mapsto> str ''Get feedback notifications in Slack channels'',
     ''icon'' \<mapsto> Component Chat, ''enabled'' \<mapsto> boolean False,
     ''status'' \<mapsto> str ''disconnected'']"

definition teams :: integration where
  "teams = [''id'' \<mapsto> str ''teams'', ''name'' \<mapsto> str ''Microsoft Teams'',
     ''description'' \<mapsto> str ''Send feedback alerts to Teams channels'',
     ''icon'' \<mapsto> Component Chat, ''enabled'' \<mapsto> boolean False,
     ''status'' \<mapsto> str ''disconnected'']"

definition email_integration :: integration where
  "email_integration = [''id'' \<mapsto> str ''email'', ''name'' \<mapsto> str ''Email Notifications'',
     ''description'' \<mapsto> str ''Receive email alerts for critical feedback'',
     ''icon'' \<mapsto> Component Email, ''enabled'' \<mapsto> boolean True,
     ''status'' \<mapsto> str ''connected'',
     ''config'' \<mapsto> Data (JObj [''email'' \<mapsto> JStr ''team@example.com''])]"

definition webhook :: integration where
  "webhook = [''id'' \<mapsto> str ''webhook'', ''name'' \<mapsto> str ''Custom Webhook'',
     ''description'' \<mapsto> str ''Send feedback to your custom endpoint'',
     ''icon'' \<mapsto> Component Webhook, ''enabled'' \<mapsto> boolean False,
     ''status'' \<mapsto> str ''disconnected'']"

definition zapier :: integration where
  "zapier = [''id'' \<mapsto> str ''zapier'', ''name'' \<mapsto> str ''Zapier'',
     ''description'' \<mapsto> str ''Connect to 5000+ apps via Zapier'',
     ''icon'' \<mapsto> Component IntegrationInstructions, ''enabled'' \<mapsto> boolean False,
     ''status'' \<mapsto> str ''disconnected'']"

definition defaultIntegrations :: "integration list" where
  "defaultIntegrations = [slack, teams, email_integration, webhook, zapier]"

subsection \<open>loadIntegrations\<close>

text \<open>
  \<open>i.id\<close> for an element of the parsed array: reading a property of \<open>null\<close> throws, an
  object gives its property, every other JSON value (number, string, boolean, array) has no
  \<open>id\<close>.
\<close>

fun element_id :: "json \<Rightarrow> js_error + jsval option" where
  "element_id JNull = Inl TypeError"
| "element_id (JObj m) = Inr (map_option Data (m ''id''))"
| "element_id v = Inr None"

text \<open>\<open>xs.find((i) => i.id === def.id)\<close>: the first element that matches, \<open>undefined\<close>
  when there is none; a throw of the callback ends the search.\<close>

fun array_find :: "json list \<Rightarrow> jsval option \<Rightarrow> js_error + json option" where
  "array_find [] def_id = Inr None"
| "array_find (i # rest) def_id =
     (case element_id i of
        Inl e \<Rightarrow> Inl e
      | Inr i_id \<Rightarrow> if strict_equals i_id def_id then Inr (Some i) else array_find rest def_id)"

text \<open>\<open>parsedIntegrations.find(...)\<close>: only an array has \<open>find\<close>; on \<open>null\<close> the property
  read throws, on any other document \<open>find\<close> is \<open>undefined\<close> and the call throws.\<close>

fun parsed_find :: "json \<Rightarrow> jsval option \<Rightarrow> js_error + json option" where
  "parsed_find (JArr xs) def_id = array_find xs def_id"
| "parsed_find v def_id = Inl TypeError"

text \<open>
  The own properties that \<open>...saved\<close> copies. A found element has the \<open>id\<close> of a catalog
  entry, a string, so it is an object (\<open>array_find_object\<close> below); the spread of a
  string or an array, which would copy its indices, cannot arise and is left empty.
\<close>

fun own_properties :: "json \<Rightarrow> (string \<Rightarrow> jsval option)" where
  "own_properties (JObj m) = (\<lambda>k. map_option Data (m k))"
| "own_properties v = Map.empty"

text \<open>\<open>saved ? { ...def, ...saved, icon: def.icon } : def\<close>\<close>

definition merge_saved :: "integration \<Rightarrow> json option \<Rightarrow> integration" where
  "merge_saved def found =
     (case found of
        None \<Rightarrow> def
      | Some saved \<Rightarrow>
          if truthy (Some (Data saved))
          then (def ++ own_properties saved)(''icon'' := def ''icon'')
          else def)"

text \<open>\<open>defaultIntegrations.map((def) => ...)\<close>, where the callback may throw.\<close>

fun map_defaults :: "json \<Rightarrow> integration list \<Rightarrow> js_error + integration list" where
  "map_defaults parsedIntegrations [] = Inr []"
| "map_defaults parsedIntegrations (def # defs) =
     (case parsed_find parsedIntegrations (def ''id'') of
        Inl e \<Rightarrow> Inl e
      | Inr found \<Rightarrow>
          (case map_defaults parsedIntegrations defs of
             Inl e \<Rightarrow> Inl e
           | Inr rest \<Rightarrow> Inr (merge_saved def found # rest)))"

text \<open>The body of the \<open>try\<close>: \<open>Inl e\<close> when it throws, \<open>Inr (Some xs)\<close> when it returns
  \<open>xs\<close>, \<open>Inr None\<close> when it falls through (nothing saved).\<close>

definition load_try :: "local_storage \<Rightarrow> js_error + integration list option" where
  "load_try ls =
     (case getItem ls ''integrations_config'' of
        None \<Rightarrow> Inr None
      | Some saved \<Rightarrow>
          if truthy_text saved then
            (case JSON_parse saved of
               Inl e \<Rightarrow> Inl e
             | Inr parsedIntegrations \<Rightarrow>
                 (case map_defaults parsedIntegrations defaultIntegrations of
                    Inl e \<Rightarrow> Inl e
                  | Inr merged \<Rightarrow> Inr (Some merged)))
          else Inr None)"

definition loadIntegrations :: "local_storage \<Rightarrow> integration list" where
  "loadIntegrations ls =
     (case load_try ls of
        Inl error \<Rightarrow> defaultIntegrations
      | Inr (Some merged) \<Rightarrow> merged
      | Inr None \<Rightarrow> defaultIntegrations)"

subsection \<open>The effect that saves\<close>

text \<open>
  \<open>({ icon, ...rest }) => rest\<close>, as \<open>JSON.stringify\<close> then writes it: every property but
  \<open>icon\<close>. A component is not JSON data; one held under another name is left out, as
  \<open>JSON.stringify\<close> leaves out what it cannot write.
\<close>

definition rest_of :: "integration \<Rightarrow> (string \<Rightarrow> json option)" where
  "rest_of integration =
     (\<lambda>k. if k = ''icon'' then None
          else (case integration k of Some (Data v) \<Rightarrow> Some v | _ \<Rightarrow> None))"

definition dataToSave :: "integration list \<Rightarrow> json" where
  "dataToSave integrations = JArr (map (\<lambda>integration. JObj (rest_of integration)) integrations)"

definition save_effect :: "integration list \<Rightarrow> local_storage \<Rightarrow> local_storage" where
  "save_effect integrations ls =
     setItem ls ''integrations_config'' (JSON_stringify (dataToSave integrations))"

subsection \<open>The component's state and its handlers\<close>

text \<open>
  The state of the \<open>Integrations\<close> component: the user it selects from the store and its
  five \<open>useState\<close> cells.
\<close>

record page =
  auth_user :: "user option"
  integrations :: "integration list"
  configDialogOpen :: bool
  selectedIntegration :: "integration option"
  configValues :: jsval
  testResult :: "string option"

definition initial_page :: "user option \<Rightarrow> local_storage \<Rightarrow> page" where
  "initial_page u ls =
     \<lparr>auth_user = u, integrations = loadIntegrations ls, configDialogOpen = False,
      selectedIntegration = None, configValues = Data (JObj Map.empty), testResult = None\<rparr>"

text \<open>\<open>user?.role === "admin" || user?.role === "analyst"\<close> and
  \<open>user?.role === "viewer"\<close>.\<close>

definition canModify :: "page \<Rightarrow> bool" where
  "canModify p =
     (case auth_user p of
        None \<Rightarrow> False
      | Some u \<Rightarrow> role u = ''admin'' \<or> role u = ''analyst'')"

definition isViewer :: "page \<Rightarrow> bool" where
  "isViewer p = (case auth_user p of None \<Rightarrow> False | Some u \<Rightarrow> role u = ''viewer'')"

text \<open>The \<open>disabled\<close> property of each card's switch and of its Configure button.\<close>

definition switch_disabled :: "page \<Rightarrow> bool" where
  "switch_disabled p = (\<not> canModify p)"

definition configure_button_disabled :: "page \<Rightarrow> bool" where
  "configure_button_disabled p = (\<not> canModify p)"

definition handleToggle :: "string \<Rightarrow> page \<Rightarrow> page" where
  "handleToggle integrationId p =
     p\<lparr>integrations :=
         map (\<lambda>integration.
                if strict_equals (integration ''id'') (Some (str integrationId))
                then integration(''enabled'' \<mapsto> boolean (\<not> truthy (integration ''enabled'')))
                else integration)
             (integrations p)\<rparr>"

text \<open>\<open>integration.config || {}\<close>\<close>

definition config_or_empty :: "integration \<Rightarrow> jsval" where
  "config_or_empty integration =
     (case integration ''config'' of
        None \<Rightarrow> Data (JObj Map.empty)
      | Some c \<Rightarrow> if truthy (Some c) then c else Data (JObj Map.empty))"

definition handleConfigure :: "integration \<Rightarrow> page \<Rightarrow> page" where
  "handleConfigure integration p =
     p\<lparr>selectedIntegration := Some integration,
       configValues := config_or_empty integration,
       configDialogOpen := True,
       testResult := None\<rparr>"

definition handleSaveConfig :: "page \<Rightarrow> page" where
  "handleSaveConfig p =
     (case selectedIntegration p of
        None \<Rightarrow> p
      | Some selected \<Rightarrow>
          p\<lparr>integrations :=
              map (\<lambda>integration.
                     if strict_equals (integration ''id'') (selected ''id'')
                     then integration(''config'' \<mapsto> configValues p,
                            ''status'' \<mapsto> str ''connected'',
                            ''enabled'' \<mapsto> boolean True)
                     else integration)
                  (integrations p),
            configDialogOpen := False,
            selectedIntegration := None\<rparr>)"

text \<open>The setters the dialog calls directly, and the callback of the timer that
  \<open>handleTestConnection\<close> starts (the handler itself changes nothing).\<close>

definition setConfigValues :: "jsval \<Rightarrow> page \<Rightarrow> page" where
  "setConfigValues v p = p\<lparr>configValues := v\<rparr>"

definition setConfigDialogOpen :: "bool \<Rightarrow> page \<Rightarrow> page" where
  "setConfigDialogOpen b p = p\<lparr>configDialogOpen := b\<rparr>"

definition test_timer_fired :: "page \<Rightarrow> page" where
  "test_timer_fired p =
     p\<lparr>testResult := Some ''Connection successful! Integration is working properly.''\<rparr>"

text \<open>
  Everything the rendered page can be made to do, one event per callback. A field of the
  dialog calls \<open>setConfigValues\<close> with an object literal
  (\<open>{ ...configValues, webhookUrl: e.target.value }\<close>); the event carries that object.
\<close>

datatype event =
    Toggle string
  | Configure integration
  | EditConfig "string \<Rightarrow> json option"
  | TestConnection
  | TestTimer
  | CloseDialog
  | SaveConfig
  | AddCustomIntegration

fun step :: "event \<Rightarrow> page \<Rightarrow> page" where
  "step (Toggle integrationId) p = handleToggle integrationId p"
| "step (Configure integration) p = handleConfigure integration p"
| "step (EditConfig edited) p = setConfigValues (Data (JObj edited)) p"
| "step TestConnection p = p"
| "step TestTimer p = test_timer_fired p"
| "step CloseDialog p = setConfigDialogOpen False p"
| "step SaveConfig p = handleSaveConfig p"
| "step AddCustomIntegration p = p"

text \<open>
  The effect depends on \<open>[integrations]\<close>: it runs after the first render and after every
  call of \<open>setIntegrations\<close>, which always passes a new array.
\<close>

fun sets_integrations :: "event \<Rightarrow> page \<Rightarrow> bool" where
  "sets_integrations (Toggle integrationId) p = True"
| "sets_integrations SaveConfig p = (selectedIntegration p \<noteq> None)"
| "sets_integrations e p = False"

definition mount :: "user option \<Rightarrow> local_storage \<Rightarrow> page \<times> local_storage" where
  "mount u ls = (initial_page u ls, save_effect (loadIntegrations ls) ls)"

definition dispatch :: "event \<Rightarrow> page \<times> local_storage \<Rightarrow> page \<times> local_storage" where
  "dispatch e st =
     (let p = fst st; ls = snd st; p' = step e p
      in (p', if sets_integrations e p then save_effect (integrations p') ls else ls))"

text \<open>
  The states of the page: the first render, and whatever the events lead to. The Configure
  button of a card passes the integration of that card.
\<close>

fun offered :: "event \<Rightarrow> page \<Rightarrow> bool" where
  "offered (Configure integration) p = (integration \<in> set (integrations p))"
| "offered e p = True"

inductive reachable :: "page \<Rightarrow> bool" where
  first_render: "reachable (initial_page u ls)"
| after_event: "reachable p \<Longrightarrow> offered e p \<Longrightarrow> reachable (step e p)"

subsection \<open>The store operations of the specification, as the page provides them\<close>

text \<open>
  The specification names the operations \<open>toggle\<close> and \<open>configure\<close> and gives them an error
  kind \<open>NotFound\<close>. On the page, \<open>toggle(id)\<close> is the switch's \<open>handleToggle(id)\<close>, and
  \<open>configure(id, configValues)\<close> is: Configure on the card, the fields edited to
  \<open>configValues\<close>, Save. Neither handler has a branch that throws or reports anything:
  each calls \<open>setIntegrations\<close> with a map over the previous array, whatever the id.
\<close>

datatype store_error = NotFound

definition toggle :: "string \<Rightarrow> page \<Rightarrow> store_error + page" where
  "toggle integrationId p = Inr (handleToggle integrationId p)"

definition configure :: "integration \<Rightarrow> jsval \<Rightarrow> page \<Rightarrow> store_error + page" where
  "configure integration v p =
     Inr (handleSaveConfig (setConfigValues v (handleConfigure integration p)))"

text \<open>A signed-in user of a given role, and the page as that user first sees it with
  nothing saved.\<close>

definition user_with_role :: "string \<Rightarrow> user" where
  "user_with_role r =
     \<lparr>user_id = ''u2'', username = ''sam'', email = ''sam@example.com'', full_name = None,
      role = r, requested_role = None, role_approved = True, is_active = True,
      created_at = ''2025-01-01''\<rparr>"

definition fresh_page :: "string \<Rightarrow> page" where
  "fresh_page r = initial_page (Some (user_with_role r)) Map.empty"

subsection \<open>Predicates of the statements\<close>

text \<open>
  An integration record follows a catalog entry when it has the entry's \<open>id\<close> and icon, every
  property the entry has, and no component under another name than \<open>icon\<close>. This is so for
  every record the page makes in this model (\<open>loadIntegrations\<close>, then toggles and saves).
\<close>

definition follows_descriptor :: "integration \<Rightarrow> integration \<Rightarrow> bool" where
  "follows_descriptor i d \<longleftrightarrow>
     i ''id'' = d ''id'' \<and> i ''icon'' = d ''icon'' \<and> dom d \<subseteq> dom i \<and>
     (\<forall>k c. i k = Some (Component c) \<longrightarrow> k = ''icon'')"

fun is_data :: "jsval \<Rightarrow> bool" where
  "is_data (Data v) = True"
| "is_data (Component c) = False"

text \<open>What holds of the page after every event: its records follow the catalog, and the
  dialog's values are data.\<close>

definition page_invariant :: "page \<Rightarrow> bool" where
  "page_invariant p \<longleftrightarrow>
     list_all2 follows_descriptor (integrations p) defaultIntegrations \<and> is_data (configValues p)"

fun is_array :: "json \<Rightarrow> bool" where
  "is_array (JArr xs) = True"
| "is_array v = False"

text \<open>The property names of each record of the stored document.\<close>

fun record_fields :: "json \<Rightarrow> string set" where
  "record_fields (JObj m) = dom m"
| "record_fields v = {}"

definition stored_fields :: "local_storage \<Rightarrow> string set list" where
  "stored_fields ls =
     (case getItem ls ''integrations_config'' of
        Some (Json_text (JArr xs)) \<Rightarrow> map record_fields xs
      | _ \<Rightarrow> [])"

subsection \<open>Stored documents and states of the examples\<close>

text \<open>A stored array with one record, which gives the Slack integration another name.\<close>

definition renamed_record :: "string \<Rightarrow> json option" where
  "renamed_record = [''id'' \<mapsto> JStr ''slack'', ''name'' \<mapsto> JStr ''Renamed'']"

definition renamed_storage :: local_storage where
  "renamed_storage = [''integrations_config'' \<mapsto> Json_text (JArr (map JObj [renamed_record]))]"

text \<open>A storage whose entry is not JSON text.\<close>

definition garbled_storage :: local_storage where
  "garbled_storage = [''integrations_config'' \<mapsto> Not_json]"

text \<open>The catalog records with the email record lacking its optional \<open>config\<close>.\<close>

definition without_email_config :: "integration list" where
  "without_email_config =
     [slack, teams, email_integration(''config'' := None), webhook, zapier]"

text \<open>A stored array whose Slack record has a string where the interface has a boolean,
  and the page as first rendered over that storage.\<close>

definition yes_record :: "string \<Rightarrow> json option" where
  "yes_record = [''id'' \<mapsto> JStr ''slack'', ''enabled'' \<mapsto> JStr ''yes'']"

definition yes_storage :: local_storage where
  "yes_storage = [''integrations_config'' \<mapsto> Json_text (JArr (map JObj [yes_record]))]"

definition yes_page :: page where
  "yes_page = initial_page (Some (user_with_role ''admin'')) yes_storage"

text \<open>The values a user types into the Slack dialog.\<close>

definition slack_values :: jsval where
  "slack_values = Data (JObj [''webhookUrl'' \<mapsto> JStr ''https://x''])"

section \<open>Auxiliary facts\<close>

lemma str_eq [simp]: "str s = str t \<longleftrightarrow> s = t"
  by (simp add: str_def)

lemma boolean_eq [simp]: "boolean a = boolean b \<longleftrightarrow> a = b"
  by (simp add: boolean_def)

lemma str_neq_boolean [simp]: "str s \<noteq> boolean b" "boolean b \<noteq> str s"
  by (simp_all add: str_def boolean_def)

lemma truthy_boolean [simp]: "truthy (Some (boolean b)) = b"
  by (simp add: boolean_def)

lemma strict_equals_str [simp]: "strict_equals v (Some (str s)) \<longleftrightarrow> v = Some (str s)"
  by (auto simp: strict_equals_def str_def)

lemmas catalog_defs =
  defaultIntegrations_def slack_def teams_def email_integration_def webhook_def zapier_def

lemma defaultIntegrations_id:
  "map (\<lambda>d. d ''id'') defaultIntegrations =
     [Some (str ''slack''), Some (str ''teams''), Some (str ''email''),
      Some (str ''webhook''), Some (str ''zapier'')]"
  by (simp add: catalog_defs)

lemma catalog_ids_are_strings: "\<forall>d \<in> set defaultIntegrations. \<exists>s. d ''id'' = Some (str s)"
  by (simp add: catalog_defs)

lemma catalog_ids_distinct: "distinct (map (\<lambda>d. d ''id'') defaultIntegrations)"
  by (simp add: defaultIntegrations_id)

lemma catalog_not_empty: "defaultIntegrations \<noteq> []"
  by (simp add: defaultIntegrations_def)

lemma nothing_saved_defaults:
  "getItem ls ''integrations_config'' = None \<Longrightarrow> loadIntegrations ls = defaultIntegrations"
  by (simp add: loadIntegrations_def load_try_def)

lemma fresh_page_integrations: "integrations (fresh_page r) = defaultIntegrations"
  by (simp add: fresh_page_def initial_page_def nothing_saved_defaults getItem_def)

subsection \<open>The search in the stored array\<close>

lemma array_find_records:
  "array_find (map JObj records) (Some (str s)) =
     Inr (map_option JObj (find (\<lambda>r. r ''id'' = Some (JStr s)) records))"
  by (induction records) (auto simp add: str_def strict_equals_def)

text \<open>What \<open>find\<close> returns for a catalog entry is an object: the case that
  \<open>own_properties\<close> spells out is the only one that occurs.\<close>

lemma array_find_object:
  "array_find xs (Some (str s)) = Inr (Some v) \<Longrightarrow> \<exists>m. v = JObj m"
proof (induction xs)
  case Nil
  then show ?case by simp
next
  case (Cons x xs)
  then show ?case
    by (cases x) (auto simp add: str_def strict_equals_def split: if_splits)
qed

lemma map_defaults_records:
  assumes "\<forall>d \<in> set defs. \<exists>s. d ''id'' = Some (str s)"
  shows "map_defaults (JArr (map JObj records)) defs =
     Inr (map (\<lambda>d. merge_saved d
            (map_option JObj (find (\<lambda>r. map_option Data (r ''id'') = d ''id'') records))) defs)"
  using assms
proof (induction defs)
  case Nil
  then show ?case by simp
next
  case (Cons d defs)
  then obtain s where s: "d ''id'' = Some (str s)" by auto
  have "(\<lambda>r. map_option Data (r ''id'') = Some (str s)) = (\<lambda>r. r ''id'' = Some (JStr s))"
    by (auto simp add: str_def fun_eq_iff)
  with Cons s show ?case by (simp add: array_find_records)
qed

lemma map_defaults_non_array:
  "\<not> is_array v \<Longrightarrow> defs \<noteq> [] \<Longrightarrow> map_defaults v defs = Inl TypeError"
  by (cases defs; cases v) simp_all

lemma load_records:
  assumes "getItem ls ''integrations_config'' = Some (Json_text (JArr (map JObj records)))"
  shows "loadIntegrations ls =
     map (\<lambda>d. merge_saved d
           (map_option JObj (find (\<lambda>r. map_option Data (r ''id'') = d ''id'') records)))
       defaultIntegrations"
  using assms
  by (simp add: loadIntegrations_def load_try_def map_defaults_records [OF catalog_ids_are_strings])

lemma merge_saved_None [simp]: "merge_saved d None = d"
  by (simp add: merge_saved_def)

lemma merge_saved_record:
  "merge_saved d (Some (JObj r)) k =
     (if k = ''icon'' then d ''icon''
      else (case r k of Some v \<Rightarrow> Some (Data v) | None \<Rightarrow> d k))"
  by (simp add: merge_saved_def map_add_def split: option.splits)

lemma find_unique:
  assumes "distinct (map g xs)" and "j < length xs"
  shows "find (\<lambda>r. g r = g (xs ! j)) xs = Some (xs ! j)"
proof -
  have "\<forall>i < j. g (xs ! i) \<noteq> g (xs ! j)"
    using assms by (auto simp add: distinct_conv_nth)
  with assms show ?thesis
    by (auto simp add: find_Some_iff)
qed

subsection \<open>What the effect writes\<close>

lemma getItem_save_effect:
  "getItem (save_effect xs ls) ''integrations_config'' =
     Some (Json_text (JArr (map JObj (map rest_of xs))))"
  by (simp add: save_effect_def getItem_def setItem_def JSON_stringify_def dataToSave_def)

lemma rest_of_id:
  "follows_descriptor i d \<Longrightarrow> \<exists>s. d ''id'' = Some (str s) \<Longrightarrow>
     map_option Data (rest_of i ''id'') = d ''id''"
  by (auto simp add: follows_descriptor_def rest_of_def str_def)

lemma merge_rest_of:
  assumes "follows_descriptor i d"
  shows "merge_saved d (Some (JObj (rest_of i))) = i"
proof
  fix k
  show "merge_saved d (Some (JObj (rest_of i))) k = i k"
  proof (cases "i k")
    case None
    then have "d k = None" using assms by (auto simp add: follows_descriptor_def)
    with None assms show ?thesis
      by (auto simp add: merge_saved_record rest_of_def follows_descriptor_def)
  next
    case (Some v)
    with assms show ?thesis
      by (cases v) (auto simp add: merge_saved_record rest_of_def follows_descriptor_def)
  qed
qed

subsection \<open>Loaded records follow the catalog\<close>

lemma follows_itself:
  "(\<forall>k c. d k = Some (Component c) \<longrightarrow> k = ''icon'') \<Longrightarrow> follows_descriptor d d"
  by (simp add: follows_descriptor_def)

lemma catalog_follows_itself: "\<forall>d \<in> set defaultIntegrations. follows_descriptor d d"
  by (simp add: defaultIntegrations_def follows_itself slack_def teams_def email_integration_def
      webhook_def zapier_def str_def boolean_def)

lemma array_find_Some:
  "array_find xs (Some (str s)) = Inr (Some v) \<Longrightarrow> \<exists>m. v = JObj m \<and> m ''id'' = Some (JStr s)"
proof (induction xs)
  case Nil
  then show ?case by simp
next
  case (Cons x xs)
  then show ?case
    by (cases x) (auto simp add: str_def strict_equals_def split: if_splits)
qed


lemma merge_saved_dom: "dom d \<subseteq> dom (merge_saved d (Some (JObj m)))"
proof
  fix k assume "k \<in> dom d"
  then obtain v where "d k = Some v" by auto
  then show "k \<in> dom (merge_saved d (Some (JObj m)))"
    by (cases "k = ''icon''"; cases "m k") (simp_all add: merge_saved_record dom_def)
qed

lemma merge_saved_component:
  assumes data: "\<forall>k c. d k = Some (Component c) \<longrightarrow> k = ''icon''"
    and comp: "merge_saved d (Some (JObj m)) k = Some (Component c)"
  shows "k = ''icon''"
proof (rule ccontr)
  assume other: "k \<noteq> ''icon''"
  with comp have "(case m k of Some v \<Rightarrow> Some (Data v) | None \<Rightarrow> d k) = Some (Component c)"
    by (simp add: merge_saved_record)
  then have "d k = Some (Component c)"
    by (cases "m k") simp_all
  with data other show False by blast
qed

lemma merge_saved_follows:
  assumes self: "follows_descriptor d d" and ident: "d ''id'' = Some (str s)"
    and search: "parsed_find v (d ''id'') = Inr found"
  shows "follows_descriptor (merge_saved d found) d"
proof (cases found)
  case None
  with self show ?thesis by simp
next
  case (Some saved)
  from search obtain xs where "v = JArr xs" by (cases v) simp_all
  with search Some ident have "array_find xs (Some (str s)) = Inr (Some saved)" by simp
  then obtain m where m: "saved = JObj m" "m ''id'' = Some (JStr s)"
    using array_find_Some by blast
  have data: "\<forall>k c. d k = Some (Component c) \<longrightarrow> k = ''icon''"
    using self by (simp add: follows_descriptor_def)
  have "merge_saved d (Some (JObj m)) ''id'' = d ''id''"
    using m(2) ident by (simp add: merge_saved_record str_def)
  moreover have "merge_saved d (Some (JObj m)) ''icon'' = d ''icon''"
    by (simp add: merge_saved_record)
  moreover note merge_saved_dom [of d m]
  moreover have "\<forall>k c. merge_saved d (Some (JObj m)) k = Some (Component c) \<longrightarrow> k = ''icon''"
    using merge_saved_component [OF data] by blast
  ultimately have "follows_descriptor (merge_saved d (Some (JObj m))) d"
    unfolding follows_descriptor_def by (intro conjI)
  then show ?thesis
    by (simp only: Some m(1))
qed

lemma map_defaults_follows:
  assumes "\<forall>d \<in> set defs. follows_descriptor d d \<and> (\<exists>s. d ''id'' = Some (str s))"
    and "map_defaults v defs = Inr merged"
  shows "list_all2 follows_descriptor merged defs"
  using assms
proof (induction defs arbitrary: merged)
  case Nil
  then show ?case by simp
next
  case (Cons d defs)
  from Cons.prems(2) obtain found rest where
    found: "parsed_find v (d ''id'') = Inr found"
    and rest: "map_defaults v defs = Inr rest"
    and merged: "merged = merge_saved d found # rest"
    by (auto split: sum.splits)
  from Cons.prems(1) obtain s where "follows_descriptor d d" "d ''id'' = Some (str s)"
    by auto
  then have "follows_descriptor (merge_saved d found) d"
    using found by (rule merge_saved_follows)
  moreover have "list_all2 follows_descriptor rest defs"
    using Cons.prems(1) rest by (intro Cons.IH) auto
  ultimately show ?case
    by (simp add: merged)
qed

text \<open>Whatever is stored, the loaded records follow the catalog.\<close>

lemma loaded_follows: "list_all2 follows_descriptor (loadIntegrations ls) defaultIntegrations"
proof -
  have self: "list_all2 follows_descriptor defaultIntegrations defaultIntegrations"
    using catalog_follows_itself by (simp add: list_all2_conv_all_nth)
  have all: "\<forall>d \<in> set defaultIntegrations. follows_descriptor d d \<and> (\<exists>s. d ''id'' = Some (str s))"
    using catalog_follows_itself catalog_ids_are_strings by blast
  show ?thesis
  proof (cases "load_try ls")
    case (Inl e)
    then show ?thesis by (simp add: loadIntegrations_def self)
  next
    case (Inr r)
    show ?thesis
    proof (cases r)
      case None
      with Inr show ?thesis by (simp add: loadIntegrations_def self)
    next
      case (Some merged)
      with Inr obtain v where "map_defaults v defaultIntegrations = Inr merged"
        by (auto simp add: load_try_def split: option.splits if_splits sum.splits)
      from map_defaults_follows [OF all this] Inr Some show ?thesis
        by (simp add: loadIntegrations_def)
    qed
  qed
qed

subsection \<open>The handlers\<close>

lemma step_status:
  "e \<noteq> SaveConfig \<Longrightarrow>
     map (\<lambda>i. i ''status'') (integrations (step e p)) = map (\<lambda>i. i ''status'') (integrations p)"
  by (cases e) (simp_all add: handleToggle_def handleConfigure_def setConfigValues_def
      setConfigDialogOpen_def test_timer_fired_def)

lemma step_ignores_user:
  "step e (p\<lparr>auth_user := u\<rparr>) = (step e p)\<lparr>auth_user := u\<rparr>"
  by (cases e) (simp_all add: handleToggle_def handleConfigure_def setConfigValues_def
      setConfigDialogOpen_def test_timer_fired_def handleSaveConfig_def split: option.splits)

lemma sets_integrations_ignores_user:
  "sets_integrations e (p\<lparr>auth_user := u\<rparr>) = sets_integrations e p"
  by (cases e) simp_all

lemma toggled_email_follows:
  "list_all2 follows_descriptor
     (integrations (handleToggle ''email'' (fresh_page ''admin''))) defaultIntegrations"
proof -
  have "integrations (handleToggle ''email'' (fresh_page ''admin'')) =
          [slack, teams, email_integration(''enabled'' \<mapsto> boolean False), webhook, zapier]"
    by (simp add: handleToggle_def fresh_page_integrations) (simp add: catalog_defs)
  then show ?thesis
    by (auto simp add: follows_descriptor_def catalog_defs str_def boolean_def split: if_splits)
qed

subsection \<open>A page loaded over a stored string flag\<close>

lemma yes_page_first:
  "0 < length (integrations yes_page)"
  "(integrations yes_page ! 0) ''id'' = Some (str ''slack'')"
  "(integrations yes_page ! 0) ''enabled'' = Some (str ''yes'')"
proof -
  have stored: "getItem yes_storage ''integrations_config'' =
                  Some (Json_text (JArr (map JObj [yes_record])))"
    by (simp add: getItem_def yes_storage_def)
  have found: "find (\<lambda>r. map_option Data (r ''id'') = slack ''id'') [yes_record] = Some yes_record"
    by (simp add: slack_def yes_record_def str_def)
  have loaded: "integrations yes_page =
      map (\<lambda>d. merge_saved d (map_option JObj
             (find (\<lambda>r. map_option Data (r ''id'') = d ''id'') [yes_record])))
        defaultIntegrations"
    unfolding yes_page_def initial_page_def by (simp add: load_records [OF stored])
  show "0 < length (integrations yes_page)"
    unfolding loaded by (simp add: defaultIntegrations_def)
  have "integrations yes_page ! 0 =
          merge_saved slack (map_option JObj
            (find (\<lambda>r. map_option Data (r ''id'') = slack ''id'') [yes_record]))"
    unfolding loaded by (simp add: defaultIntegrations_def)
  then have first: "integrations yes_page ! 0 = merge_saved slack (Some (JObj yes_record))"
    unfolding found by simp
  show "(integrations yes_page ! 0) ''id'' = Some (str ''slack'')"
    unfolding first by (simp add: merge_saved_record yes_record_def str_def)
  show "(integrations yes_page ! 0) ''enabled'' = Some (str ''yes'')"
    unfolding first by (simp add: merge_saved_record yes_record_def str_def)
qed

lemma truthy_yes: "truthy (Some (str ''yes''))"
  by (simp add: str_def)

subsection \<open>The states the page reaches\<close>

lemma follows_update:
  assumes "follows_descriptor i d" and "k \<noteq> ''id''" and "k \<noteq> ''icon''" and "is_data v"
  shows "follows_descriptor (i(k \<mapsto> v)) d"
proof -
  from assms(4) obtain j where "v = Data j" by (cases v) simp_all
  with assms(1-3) show ?thesis
    by (auto simp add: follows_descriptor_def)
qed

lemma follows_map:
  assumes "list_all2 follows_descriptor xs ds"
    and "\<And>i d. follows_descriptor i d \<Longrightarrow> follows_descriptor (f i) d"
  shows "list_all2 follows_descriptor (map f xs) ds"
  using assms by (simp add: list_all2_map1 list_all2_mono)

lemma config_or_empty_data:
  assumes "follows_descriptor i d"
  shows "is_data (config_or_empty i)"
proof (cases "i ''config''")
  case None
  then show ?thesis by (simp add: config_or_empty_def)
next
  case (Some c)
  have "is_data c"
  proof (cases c)
    case (Data j)
    then show ?thesis by simp
  next
    case (Component m)
    with Some assms have "''config'' = ''icon''"
      unfolding follows_descriptor_def by blast
    then show ?thesis by simp
  qed
  with Some show ?thesis by (simp add: config_or_empty_def)
qed

lemma step_invariant:
  assumes inv: "page_invariant p" and off: "offered e p"
  shows "page_invariant (step e p)"
proof -
  from inv have fol: "list_all2 follows_descriptor (integrations p) defaultIntegrations"
    and dat: "is_data (configValues p)"
    by (simp_all add: page_invariant_def)
  show ?thesis
  proof (cases e)
    case (Toggle x)
    have "list_all2 follows_descriptor (integrations (handleToggle x p)) defaultIntegrations"
      unfolding handleToggle_def using fol
      by (auto intro!: follows_map follows_update simp add: boolean_def)
    with dat Toggle show ?thesis
      by (simp add: page_invariant_def) (simp add: handleToggle_def)
  next
    case (Configure i)
    with off have "i \<in> set (integrations p)" by simp
    then obtain n where "n < length (integrations p)" "integrations p ! n = i"
      by (auto simp add: in_set_conv_nth)
    with fol have "follows_descriptor i (defaultIntegrations ! n)"
      by (auto dest: list_all2_nthD)
    then have "is_data (config_or_empty i)" by (rule config_or_empty_data)
    with fol Configure show ?thesis
      by (simp add: page_invariant_def handleConfigure_def)
  next
    case SaveConfig
    show ?thesis
    proof (cases "selectedIntegration p")
      case None
      with inv SaveConfig show ?thesis by (simp add: handleSaveConfig_def)
    next
      case (Some selected)
      have "list_all2 follows_descriptor
              (map (\<lambda>integration.
                     if strict_equals (integration ''id'') (selected ''id'')
                     then integration(''config'' \<mapsto> configValues p,
                            ''status'' \<mapsto> str ''connected'',
                            ''enabled'' \<mapsto> boolean True)
                     else integration) (integrations p)) defaultIntegrations"
        using fol dat
        by (auto intro!: follows_map follows_update simp add: boolean_def str_def)
      with dat Some SaveConfig show ?thesis
        by (simp add: page_invariant_def handleSaveConfig_def)
    qed
  qed (use inv in \<open>simp_all add: page_invariant_def setConfigValues_def
        setConfigDialogOpen_def test_timer_fired_def\<close>)
qed

lemma reachable_invariant: "reachable p \<Longrightarrow> page_invariant p"
proof (induction rule: reachable.induct)
  case (first_render u ls)
  show ?case
    by (simp add: page_invariant_def initial_page_def loaded_follows)
next
  case (after_event p e)
  then show ?case by (simp add: step_invariant)
qed

text \<open>Every state the page reaches has records that follow the catalog.\<close>

lemma reachable_follows:
  "reachable p \<Longrightarrow> list_all2 follows_descriptor (integrations p) defaultIntegrations"
  using reachable_invariant by (simp add: page_invariant_def)

section \<open>Properties of the route guard\<close>

text \<open>
  C4. When the guard denies a navigation, the redirect has two tiers: to \<open>/login\<close> when
  nobody is signed in, to the landing route \<open>/\<close> when the signed-in user's role is not among
  the allowed roles. When the role is allowed, the requested view is rendered.
\<close>

theorem ProtectedRoute_two_tier:
  "(user = None \<longrightarrow>
      ProtectedRoute children allowedRoles user = Navigate ''/login'' True) \<and>
   (\<forall>u. user = Some u \<and> role u \<notin> set allowedRoles \<longrightarrow>
      ProtectedRoute children allowedRoles user = Navigate ''/'' True) \<and>
   (\<forall>u. user = Some u \<and> role u \<in> set allowedRoles \<longrightarrow>
      ProtectedRoute children allowedRoles user = Fragment children)"
  by (simp add: ProtectedRoute_def array_includes_def)

theorem ProtectedRoute_two_tier_witness:
  "admin_route None = Navigate ''/login'' True \<and>
   role (pending_user ''viewer'') \<notin> set [''admin''] \<and>
   admin_route (Some (pending_user ''viewer'')) = Navigate ''/'' True \<and>
   role (pending_user ''analyst'') \<in> set [''admin'', ''analyst''] \<and>
   integrations_route (Some (pending_user ''analyst'')) = Fragment Integrations"
  using ProtectedRoute_two_tier [of None AdminManagement "[''admin'']"]
    ProtectedRoute_two_tier [of "Some (pending_user ''viewer'')" AdminManagement "[''admin'']"]
    ProtectedRoute_two_tier [of "Some (pending_user ''analyst'')" Integrations
      "[''admin'', ''analyst'']"]
  by (simp add: admin_route_def integrations_route_def pending_user_def)

text \<open>
  C1, as the specification states it: every user with a pending, unapproved admin request is
  treated as a viewer and is denied every admin-only rule. The guard reads \<open>user.role\<close> and
  nothing else. A user record whose role is already \<open>admin\<close> is let through the admin-only
  rule whatever its request fields say, and one whose role is \<open>analyst\<close> is rendered the
  integrations page, which a viewer is not.
\<close>

theorem pending_request_admin_role_counterexample:
  "\<not> (hasPendingAdminRequest (Some (pending_user ''admin'')) \<longrightarrow>
        admin_route (Some (pending_user ''admin'')) \<noteq> Fragment AdminManagement) \<and>
   \<not> (hasPendingAdminRequest (Some (pending_user ''analyst'')) \<longrightarrow>
        integrations_route (Some (pending_user ''analyst'')) =
        integrations_route (Some (pending_user ''viewer'')))"
  by (simp add: hasPendingAdminRequest_def admin_route_def integrations_route_def
      ProtectedRoute_def array_includes_def pending_user_def)

text \<open>
  C1, amended. For every user with a pending, unapproved admin request the guard decides on
  \<open>user.role\<close> alone: the view is rendered exactly when that role is allowed, replacing the
  request fields by any others leaves the decision as it is, and a user whose role is
  \<open>viewer\<close> is sent back to \<open>/\<close> by every rule that does not allow viewers, the admin-only
  rule among them.
\<close>

theorem pending_request_not_used:
  assumes "hasPendingAdminRequest (Some u)"
  shows "(ProtectedRoute children allowedRoles (Some u) = Fragment children
            \<longleftrightarrow> role u \<in> set allowedRoles) \<and>
         ProtectedRoute children allowedRoles (Some (u\<lparr>requested_role := rq, role_approved := ap\<rparr>))
            = ProtectedRoute children allowedRoles (Some u) \<and>
         (role u = ''viewer'' \<and> ''viewer'' \<notin> set allowedRoles \<longrightarrow>
            ProtectedRoute children allowedRoles (Some u) = Navigate ''/'' True) \<and>
         (role u = ''viewer'' \<longrightarrow> admin_route (Some u) = Navigate ''/'' True)"
  by (simp add: ProtectedRoute_def array_includes_def admin_route_def)

theorem pending_request_not_used_witness:
  "hasPendingAdminRequest (Some (pending_user ''viewer'')) \<and>
   admin_route (Some (pending_user ''viewer'')) = Navigate ''/'' True \<and>
   admin_route (Some ((pending_user ''viewer'')\<lparr>requested_role := None, role_approved := True\<rparr>))
     = admin_route (Some (pending_user ''viewer''))"
proof -
  have pending: "hasPendingAdminRequest (Some (pending_user ''viewer''))"
    by (simp add: hasPendingAdminRequest_def pending_user_def)
  show ?thesis
    using pending
      pending_request_not_used [OF pending, where children = AdminManagement
        and allowedRoles = "[''admin'']" and rq = None and ap = True]
    by (simp add: admin_route_def pending_user_def)
qed

section \<open>Properties of the integration store\<close>

subsection \<open>Loading\<close>

text \<open>
  C9. When nothing is stored under \<open>integrations_config\<close>, or what is stored is empty, is
  not JSON text, or is a JSON document other than an array, \<open>loadIntegrations\<close> returns
  exactly the catalog defaults, one per catalog id and no other, and no error reaches the
  caller: the \<open>try\<close> body falls through or throws, and the \<open>catch\<close> ends in the defaults.
\<close>

theorem load_falls_back:
  assumes "getItem ls ''integrations_config'' = None \<or>
           getItem ls ''integrations_config'' = Some Empty_text \<or>
           getItem ls ''integrations_config'' = Some Not_json \<or>
           (\<exists>v. getItem ls ''integrations_config'' = Some (Json_text v) \<and> \<not> is_array v)"
  shows "loadIntegrations ls = defaultIntegrations \<and>
         (load_try ls = Inr None \<or> load_try ls = Inl SyntaxError \<or> load_try ls = Inl TypeError) \<and>
         map (\<lambda>i. i ''id'') (loadIntegrations ls) =
           [Some (str ''slack''), Some (str ''teams''), Some (str ''email''),
            Some (str ''webhook''), Some (str ''zapier'')]"
proof -
  have "load_try ls = Inr None \<or> load_try ls = Inl SyntaxError \<or> load_try ls = Inl TypeError"
    using assms
    by (auto simp add: load_try_def map_defaults_non_array [OF _ catalog_not_empty])
  then have "loadIntegrations ls = defaultIntegrations"
    by (auto simp add: loadIntegrations_def)
  then show ?thesis
    using \<open>load_try ls = Inr None \<or> load_try ls = Inl SyntaxError \<or> load_try ls = Inl TypeError\<close>
    by (simp add: defaultIntegrations_id)
qed

theorem load_falls_back_witness:
  "getItem Map.empty ''integrations_config'' = None \<and>
   loadIntegrations Map.empty = defaultIntegrations \<and>
   getItem garbled_storage ''integrations_config'' = Some Not_json \<and>
   loadIntegrations garbled_storage = defaultIntegrations \<and>
   load_try garbled_storage = Inl SyntaxError"
proof -
  have none: "getItem Map.empty ''integrations_config'' = None"
    by (simp add: getItem_def)
  have garbled: "getItem garbled_storage ''integrations_config'' = Some Not_json"
    by (simp add: getItem_def garbled_storage_def)
  have "load_try garbled_storage = Inl SyntaxError"
    by (simp add: load_try_def garbled)
  then show ?thesis
    using none garbled load_falls_back [of Map.empty] load_falls_back [of garbled_storage]
    by simp
qed

text \<open>
  C3, as the specification states it: the display name of a loaded integration always comes
  from the catalog. The spread \<open>{ ...def, ...saved, icon: def.icon }\<close> puts back the icon
  only; a stored \<open>name\<close> replaces the catalog's.
\<close>

theorem load_name_counterexample:
  "\<not> ((loadIntegrations renamed_storage ! 0) ''name'' = (defaultIntegrations ! 0) ''name'')"
proof -
  have stored: "getItem renamed_storage ''integrations_config'' =
                  Some (Json_text (JArr (map JObj [renamed_record])))"
    by (simp add: getItem_def renamed_storage_def)
  have found: "find (\<lambda>r. map_option Data (r ''id'') = slack ''id'') [renamed_record] =
                 Some renamed_record"
    by (simp add: slack_def renamed_record_def str_def)
  have "loadIntegrations renamed_storage ! 0 =
          merge_saved slack (map_option JObj
            (find (\<lambda>r. map_option Data (r ''id'') = slack ''id'') [renamed_record]))"
    unfolding load_records [OF stored] by (simp add: defaultIntegrations_def)
  then have "(loadIntegrations renamed_storage ! 0) ''name'' = Some (Data (JStr ''Renamed''))"
    unfolding found by (simp add: merge_saved_record renamed_record_def)
  moreover have "(defaultIntegrations ! 0) ''name'' = Some (Data (JStr ''Slack''))"
    by (simp add: defaultIntegrations_def slack_def str_def)
  ultimately show ?thesis by simp
qed

text \<open>
  C3, amended. For every stored array of records, \<open>loadIntegrations\<close> returns exactly one
  integration per catalog entry, in catalog order and with the entry's \<open>id\<close>. Where a stored
  record has the entry's \<open>id\<close>, every property of the first such record wins over the
  entry's, the display name and the description among them; only the icon always comes from
  the catalog and never from storage. Where no stored record has the \<open>id\<close>, the entry
  itself is returned. Stored records whose \<open>id\<close> is no catalog entry's are dropped.
\<close>

theorem load_merges:
  assumes "getItem ls ''integrations_config'' = Some (Json_text (JArr (map JObj records)))"
  shows "length (loadIntegrations ls) = length defaultIntegrations \<and>
         (\<forall>j < length defaultIntegrations.
            (loadIntegrations ls ! j) ''id'' = (defaultIntegrations ! j) ''id'' \<and>
            (loadIntegrations ls ! j) ''icon'' = (defaultIntegrations ! j) ''icon'' \<and>
            (case find (\<lambda>r. map_option Data (r ''id'') = (defaultIntegrations ! j) ''id'') records of
               None \<Rightarrow> loadIntegrations ls ! j = defaultIntegrations ! j
             | Some r \<Rightarrow>
                 (\<forall>k. k \<noteq> ''icon'' \<longrightarrow>
                    (loadIntegrations ls ! j) k =
                      (case r k of
                         Some v \<Rightarrow> Some (Data v)
                       | None \<Rightarrow> (defaultIntegrations ! j) k))))"
proof -
  note L = load_records [OF assms]
  show ?thesis
  proof (intro conjI allI impI)
    show "length (loadIntegrations ls) = length defaultIntegrations" by (simp add: L)
  next
    fix j assume j: "j < length defaultIntegrations"
    let ?d = "defaultIntegrations ! j"
    let ?f = "find (\<lambda>r. map_option Data (r ''id'') = ?d ''id'') records"
    have nth: "loadIntegrations ls ! j = merge_saved ?d (map_option JObj ?f)"
      using j by (simp add: L)
    show "(loadIntegrations ls ! j) ''icon'' = ?d ''icon''"
      by (cases ?f) (simp_all add: nth merge_saved_record)
    show "(loadIntegrations ls ! j) ''id'' = ?d ''id''"
    proof (cases ?f)
      case None
      then show ?thesis by (simp add: nth)
    next
      case (Some r)
      then have "map_option Data (r ''id'') = ?d ''id''"
        by (auto simp add: find_Some_iff)
      then show ?thesis
        using Some by (auto simp add: nth merge_saved_record split: option.splits)
    qed
    show "case ?f of
            None \<Rightarrow> loadIntegrations ls ! j = ?d
          | Some r \<Rightarrow> \<forall>k. k \<noteq> ''icon'' \<longrightarrow> (loadIntegrations ls ! j) k =
              (case r k of Some v \<Rightarrow> Some (Data v) | None \<Rightarrow> ?d k)"
      by (cases ?f) (simp_all add: nth merge_saved_record)
  qed
qed

theorem load_merges_witness:
  "getItem renamed_storage ''integrations_config'' =
     Some (Json_text (JArr (map JObj [renamed_record]))) \<and>
   length (loadIntegrations renamed_storage) = 5 \<and>
   (loadIntegrations renamed_storage ! 0) ''icon'' = Some (Component Chat) \<and>
   (loadIntegrations renamed_storage ! 0) ''name'' = Some (str ''Renamed'') \<and>
   (loadIntegrations renamed_storage ! 0) ''enabled'' = Some (boolean False) \<and>
   loadIntegrations renamed_storage ! 1 = teams"
proof -
  have stored: "getItem renamed_storage ''integrations_config'' =
                  Some (Json_text (JArr (map JObj [renamed_record])))"
    by (simp add: getItem_def renamed_storage_def)
  have d0: "defaultIntegrations ! 0 = slack" and d1: "defaultIntegrations ! 1 = teams"
    and len: "length defaultIntegrations = 5"
    by (simp_all add: defaultIntegrations_def)
  have f0: "find (\<lambda>r. map_option Data (r ''id'') = slack ''id'') [renamed_record] =
              Some renamed_record"
    by (simp add: slack_def renamed_record_def str_def)
  have f1: "find (\<lambda>r. map_option Data (r ''id'') = teams ''id'') [renamed_record] = None"
    by (simp add: teams_def renamed_record_def str_def)
  note merged = load_merges [OF stored, unfolded len]
  from merged have n: "length (loadIntegrations renamed_storage) = 5"
    by (rule conjunct1)
  from merged have each: "\<forall>j<5.
      (loadIntegrations renamed_storage ! j) ''id'' = (defaultIntegrations ! j) ''id'' \<and>
      (loadIntegrations renamed_storage ! j) ''icon'' = (defaultIntegrations ! j) ''icon'' \<and>
      (case find (\<lambda>r. map_option Data (r ''id'') = (defaultIntegrations ! j) ''id'')
              [renamed_record] of
         None \<Rightarrow> loadIntegrations renamed_storage ! j = defaultIntegrations ! j
       | Some r \<Rightarrow>
           (\<forall>k. k \<noteq> ''icon'' \<longrightarrow>
              (loadIntegrations renamed_storage ! j) k =
                (case r k of
                   Some v \<Rightarrow> Some (Data v)
                 | None \<Rightarrow> (defaultIntegrations ! j) k)))"
    by (rule conjunct2)
  from each [rule_format, of 0]
  have icon0: "(loadIntegrations renamed_storage ! 0) ''icon'' = slack ''icon''"
    and props0: "\<And>k. k \<noteq> ''icon'' \<Longrightarrow> (loadIntegrations renamed_storage ! 0) k =
           (case renamed_record k of Some v \<Rightarrow> Some (Data v) | None \<Rightarrow> slack k)"
    unfolding d0 f0 by simp_all
  from each [rule_format, of 1]
  have second: "loadIntegrations renamed_storage ! 1 = teams"
    unfolding d1 f1 by simp
  have "(loadIntegrations renamed_storage ! 0) ''name'' = Some (str ''Renamed'')"
    by (simp add: props0 renamed_record_def str_def)
  moreover have "(loadIntegrations renamed_storage ! 0) ''enabled'' = Some (boolean False)"
    by (simp add: props0 renamed_record_def slack_def)
  moreover have "(loadIntegrations renamed_storage ! 0) ''icon'' = Some (Component Chat)"
    by (simp add: icon0 slack_def)
  ultimately show ?thesis
    using stored n second by simp
qed

subsection \<open>Saving\<close>

text \<open>
  C6, as the specification states it: every saved record has exactly the fields \<open>id\<close>,
  \<open>enabled\<close>, \<open>status\<close> and \<open>config\<close>. The effect drops \<open>icon\<close> and writes the rest:
  after the first render with nothing stored, each record also has \<open>name\<close> and
  \<open>description\<close>, and four of the five have no \<open>config\<close>.
\<close>

theorem saved_fields_counterexample:
  "\<not> list_all (\<lambda>fields. fields = {''id'', ''enabled'', ''status'', ''config''})
        (stored_fields (snd (mount (Some (user_with_role ''admin'')) Map.empty)))"
proof -
  have loaded: "loadIntegrations Map.empty = defaultIntegrations"
    by (rule nothing_saved_defaults) (simp add: getItem_def)
  have fields: "stored_fields (snd (mount (Some (user_with_role ''admin'')) Map.empty)) =
          map (\<lambda>i. dom (rest_of i)) defaultIntegrations"
    by (simp add: mount_def loaded stored_fields_def getItem_save_effect comp_def)
  have name: "''name'' \<in> dom (rest_of slack)"
    by (simp add: rest_of_def slack_def str_def dom_def)
  have "dom (rest_of slack) \<noteq> {''id'', ''enabled'', ''status'', ''config''}"
  proof
    assume "dom (rest_of slack) = {''id'', ''enabled'', ''status'', ''config''}"
    with name have "''name'' \<in> {''id'', ''enabled'', ''status'', ''config''}"
      by simp
    then show False by simp
  qed
  then show ?thesis
    unfolding fields by (simp add: defaultIntegrations_def)
qed

text \<open>
  C6, amended. Every run of the saving effect writes the single storage entry
  \<open>integrations_config\<close> and no other. What it writes is an array, with no version field
  around it, of one record per integration in order; a record holds all the data properties
  of its integration except \<open>icon\<close>: \<open>id\<close>, \<open>name\<close>, \<open>description\<close>, \<open>enabled\<close>,
  \<open>status\<close> and, where the integration has one, \<open>config\<close>.
\<close>

theorem save_effect_document:
  "(\<forall>key. key \<noteq> ''integrations_config'' \<longrightarrow>
      getItem (save_effect xs ls) key = getItem ls key) \<and>
   (\<exists>records.
      getItem (save_effect xs ls) ''integrations_config'' =
        Some (Json_text (JArr (map JObj records))) \<and>
      length records = length xs \<and>
      (\<forall>j < length xs.
         (records ! j) ''icon'' = None \<and>
         (\<forall>k. k \<noteq> ''icon'' \<longrightarrow>
            (records ! j) k = (case (xs ! j) k of Some (Data v) \<Rightarrow> Some v | _ \<Rightarrow> None)) \<and>
         ((\<forall>k c. (xs ! j) k = Some (Component c) \<longrightarrow> k = ''icon'') \<longrightarrow>
            stored_fields (save_effect xs ls) ! j = dom (xs ! j) - {''icon''})))"
proof (intro conjI allI impI exI [of _ "map rest_of xs"])
  fix key :: string
  assume "key \<noteq> ''integrations_config''"
  then show "getItem (save_effect xs ls) key = getItem ls key"
    by (simp add: save_effect_def getItem_def setItem_def)
next
  show "getItem (save_effect xs ls) ''integrations_config'' =
          Some (Json_text (JArr (map JObj (map rest_of xs))))"
    by (rule getItem_save_effect)
next
  show "length (map rest_of xs) = length xs" by simp
next
  fix j assume "j < length xs"
  then show "(map rest_of xs ! j) ''icon'' = None"
    by (simp add: rest_of_def)
next
  fix j k assume "j < length xs" and "k \<noteq> ''icon''"
  then show "(map rest_of xs ! j) k =
               (case (xs ! j) k of Some (Data v) \<Rightarrow> Some v | _ \<Rightarrow> None)"
    by (simp add: rest_of_def)
next
  fix j
  assume j: "j < length xs"
    and data: "\<forall>k c. (xs ! j) k = Some (Component c) \<longrightarrow> k = ''icon''"
  have "stored_fields (save_effect xs ls) ! j = dom (rest_of (xs ! j))"
    using j by (simp add: stored_fields_def getItem_save_effect)
  also have "\<dots> = dom (xs ! j) - {''icon''}"
  proof (intro set_eqI iffI)
    fix k assume "k \<in> dom (rest_of (xs ! j))"
    then show "k \<in> dom (xs ! j) - {''icon''}"
      by (auto simp add: rest_of_def split: if_splits option.splits)
  next
    fix k assume k: "k \<in> dom (xs ! j) - {''icon''}"
    then obtain v where v: "(xs ! j) k = Some v" and ne: "k \<noteq> ''icon''" by auto
    with data obtain d where "v = Data d" by (cases v) auto
    with v ne show "k \<in> dom (rest_of (xs ! j))"
      by (simp add: rest_of_def dom_def)
  qed
  finally show "stored_fields (save_effect xs ls) ! j = dom (xs ! j) - {''icon''}" .
qed

theorem save_effect_document_witness:
  "getItem (save_effect defaultIntegrations garbled_storage) ''token'' =
     getItem garbled_storage ''token'' \<and>
   stored_fields (save_effect defaultIntegrations garbled_storage) ! 0 =
     {''id'', ''name'', ''description'', ''enabled'', ''status''} \<and>
   stored_fields (save_effect defaultIntegrations garbled_storage) ! 2 =
     {''id'', ''name'', ''description'', ''enabled'', ''status'', ''config''}"
proof -
  have len: "length defaultIntegrations = 5"
    by (simp add: defaultIntegrations_def)
  have d0: "defaultIntegrations ! 0 = slack" and d2: "defaultIntegrations ! 2 = email_integration"
    by (simp_all add: defaultIntegrations_def)
  have data0: "\<forall>k c. slack k = Some (Component c) \<longrightarrow> k = ''icon''"
    by (simp add: slack_def str_def boolean_def)
  have data2: "\<forall>k c. email_integration k = Some (Component c) \<longrightarrow> k = ''icon''"
    by (simp add: email_integration_def str_def boolean_def)
  have dom0: "dom slack - {''icon''} = {''id'', ''name'', ''description'', ''enabled'', ''status''}"
    by (auto simp add: slack_def)
  have dom2: "dom email_integration - {''icon''} =
                {''id'', ''name'', ''description'', ''enabled'', ''status'', ''config''}"
    by (auto simp add: email_integration_def)
  note doc = save_effect_document [of defaultIntegrations garbled_storage, unfolded len]
  from doc have other: "getItem (save_effect defaultIntegrations garbled_storage) ''token'' =
                          getItem garbled_storage ''token''"
    by simp
  from doc obtain records where
    each: "\<forall>j<5.
         (records ! j) ''icon'' = None \<and>
         (\<forall>k. k \<noteq> ''icon'' \<longrightarrow>
            (records ! j) k =
              (case (defaultIntegrations ! j) k of Some (Data v) \<Rightarrow> Some v | _ \<Rightarrow> None)) \<and>
         ((\<forall>k c. (defaultIntegrations ! j) k = Some (Component c) \<longrightarrow> k = ''icon'') \<longrightarrow>
            stored_fields (save_effect defaultIntegrations garbled_storage) ! j =
              dom (defaultIntegrations ! j) - {''icon''})"
    by blast
  from each [rule_format, of 0] data0
  have "stored_fields (save_effect defaultIntegrations garbled_storage) ! 0 = dom slack - {''icon''}"
    unfolding d0 by simp
  moreover from each [rule_format, of 2] data2
  have "stored_fields (save_effect defaultIntegrations garbled_storage) ! 2 =
          dom email_integration - {''icon''}"
    unfolding d2 by simp
  ultimately show ?thesis
    using other by (simp only: dom0 dom2 simp_thms)
qed

text \<open>
  C5, as the specification states it: saving a valid state whose ids are among the catalog's
  and loading again gives the state back. \<open>loadIntegrations\<close> always returns one record per
  catalog entry and fills a missing property from the entry: a state with the Slack record
  only comes back as five records, and the five records with the email's optional
  \<open>config\<close> left out come back with the catalog's \<open>config\<close>.
\<close>

theorem save_then_load_counterexample:
  "set (map (\<lambda>i. i ''id'') [slack]) \<subseteq> set (map (\<lambda>d. d ''id'') defaultIntegrations) \<and>
   loadIntegrations (save_effect [slack] Map.empty) \<noteq> [slack] \<and>
   map (\<lambda>i. i ''id'') without_email_config = map (\<lambda>d. d ''id'') defaultIntegrations \<and>
   loadIntegrations (save_effect without_email_config Map.empty) \<noteq> without_email_config"
proof -
  have "length (loadIntegrations (save_effect [slack] Map.empty)) = 5"
    unfolding load_records [OF getItem_save_effect] by (simp add: defaultIntegrations_def)
  then have first: "loadIntegrations (save_effect [slack] Map.empty) \<noteq> [slack]"
    by auto
  have email_found:
    "find (\<lambda>r. map_option Data (r ''id'') = email_integration ''id'')
       (map rest_of without_email_config) = Some (rest_of (email_integration(''config'' := None)))"
    by (simp add: without_email_config_def rest_of_def catalog_defs str_def)
  have "loadIntegrations (save_effect without_email_config Map.empty) ! 2 =
          merge_saved email_integration
            (Some (JObj (rest_of (email_integration(''config'' := None)))))"
    unfolding load_records [OF getItem_save_effect]
    by (simp add: defaultIntegrations_def email_found)
  then have loaded: "(loadIntegrations (save_effect without_email_config Map.empty) ! 2) ''config'' =
               email_integration ''config''"
    by (simp add: merge_saved_record rest_of_def)
  have saved: "(without_email_config ! 2) ''config'' = None"
    by (simp add: without_email_config_def)
  have "email_integration ''config'' \<noteq> None"
    by (simp add: email_integration_def)
  with loaded saved
  have "loadIntegrations (save_effect without_email_config Map.empty) \<noteq> without_email_config"
    by auto
  moreover have "set (map (\<lambda>i. i ''id'') [slack]) \<subseteq> set (map (\<lambda>d. d ''id'') defaultIntegrations)"
    by (simp add: defaultIntegrations_id) (simp add: slack_def)
  moreover have "map (\<lambda>i. i ''id'') without_email_config =
                   map (\<lambda>d. d ''id'') defaultIntegrations"
    by (simp add: without_email_config_def catalog_defs)
  ultimately show ?thesis
    using first by simp
qed

text \<open>
  C5, amended. For every state that holds exactly one record per catalog entry, in catalog
  order, each record with its entry's \<open>id\<close> and icon, with every property its entry has, and
  with JSON data under every other name, saving the state and then loading yields the same
  state back. In this model, where every parsed document is JSON data that
  \<open>JSON.stringify\<close> writes back as it is, every state the page reaches is such a state
  (\<open>reachable_follows\<close>); a stored number that \<open>JSON.parse\<close> reads as \<open>Infinity\<close> is
  not such data and is outside the model.
\<close>

theorem save_then_load:
  assumes "list_all2 follows_descriptor s defaultIntegrations"
  shows "loadIntegrations (save_effect s ls) = s"
proof -
  let ?g = "\<lambda>r. map_option Data (r ''id'')"
  have len: "length s = length defaultIntegrations"
    using assms by (rule list_all2_lengthD)
  have fd: "follows_descriptor (s ! j) (defaultIntegrations ! j)" if "j < length s" for j
    using assms that by (rule list_all2_nthD)
  have ids: "?g (rest_of (s ! j)) = (defaultIntegrations ! j) ''id''" if "j < length s" for j
    using fd [OF that] catalog_ids_are_strings that len by (intro rest_of_id) auto
  have "map ?g (map rest_of s) = map (\<lambda>d. d ''id'') defaultIntegrations"
    using ids len by (auto intro!: nth_equalityI)
  then have dist: "distinct (map ?g (map rest_of s))"
    using catalog_ids_distinct by simp
  have found: "find (\<lambda>r. ?g r = (defaultIntegrations ! j) ''id'') (map rest_of s) =
                 Some (rest_of (s ! j))"
    if "j < length s" for j
    using find_unique [OF dist, of j] that ids [OF that] by simp
  have "loadIntegrations (save_effect s ls) =
          map (\<lambda>d. merge_saved d (map_option JObj (find (\<lambda>r. ?g r = d ''id'') (map rest_of s))))
            defaultIntegrations"
    by (rule load_records) (rule getItem_save_effect)
  also have "\<dots> = s"
    using len found fd by (auto intro!: nth_equalityI simp add: merge_rest_of)
  finally show ?thesis .
qed

theorem save_then_load_witness:
  "list_all2 follows_descriptor
     (integrations (handleToggle ''email'' (fresh_page ''admin''))) defaultIntegrations \<and>
   loadIntegrations
     (save_effect (integrations (handleToggle ''email'' (fresh_page ''admin''))) garbled_storage)
     = integrations (handleToggle ''email'' (fresh_page ''admin''))"
  using toggled_email_follows save_then_load [OF toggled_email_follows, of garbled_storage]
  by simp

subsection \<open>Toggling and configuring\<close>

text \<open>
  C2, as the specification states it: \<open>toggle\<close> of an id that no integration has fails with
  the error kind \<open>NotFound\<close>. \<open>handleToggle\<close> maps over the array whatever the id and
  reports nothing: with an unknown id it completes, and no record is changed.
\<close>

theorem toggle_unknown_id_counterexample:
  "\<not> (Some (str ''nonexistent-id'') \<notin> set (map (\<lambda>i. i ''id'') (integrations (fresh_page ''admin'')))
        \<longrightarrow> toggle ''nonexistent-id'' (fresh_page ''admin'') = Inl NotFound)"
  by (simp add: toggle_def fresh_page_integrations defaultIntegrations_id)

text \<open>
  C2, amended. For every id that no integration of the current state has, \<open>toggle(id)\<close>
  raises no error of any kind: it completes, and it leaves every integration record, and the
  rest of the page's state, unchanged.
\<close>

theorem toggle_unknown_id:
  assumes "Some (str x) \<notin> set (map (\<lambda>i. i ''id'') (integrations p))"
  shows "toggle x p = Inr p"
proof -
  have "i ''id'' \<noteq> Some (str x)" if member: "i \<in> set (integrations p)" for i
  proof
    assume eq: "i ''id'' = Some (str x)"
    from member have "i ''id'' \<in> (\<lambda>i. i ''id'') ` set (integrations p)"
      by (rule imageI)
    then have "Some (str x) \<in> set (map (\<lambda>i. i ''id'') (integrations p))"
      unfolding eq by simp
    with assms show False by contradiction
  qed
  then show ?thesis
    by (simp add: toggle_def handleToggle_def map_idI)
qed

theorem toggle_unknown_id_witness:
  "Some (str ''nonexistent-id'') \<notin> set (map (\<lambda>i. i ''id'') (integrations (fresh_page ''admin''))) \<and>
   toggle ''nonexistent-id'' (fresh_page ''admin'') = Inr (fresh_page ''admin'')"
proof -
  have absent: "Some (str ''nonexistent-id'') \<notin>
                  set (map (\<lambda>i. i ''id'') (integrations (fresh_page ''admin'')))"
    by (simp add: fresh_page_integrations defaultIntegrations_id)
  show ?thesis
    using absent toggle_unknown_id [OF absent] by simp
qed

text \<open>
  C8, as the specification states it: for every id present in the state, toggling twice
  restores the original \<open>enabled\<close> value. \<open>handleToggle\<close> writes \<open>!integration.enabled\<close>,
  always a boolean, and \<open>loadIntegrations\<close> copies whatever \<open>enabled\<close> a stored record has.
  Over a stored record with \<open>enabled: "yes"\<close> the page starts with that string, and two
  toggles leave \<open>true\<close>.
\<close>

theorem toggle_twice_counterexample:
  "reachable yes_page \<and>
   (integrations yes_page ! 0) ''id'' = Some (str ''slack'') \<and>
   (integrations yes_page ! 0) ''enabled'' = Some (str ''yes'') \<and>
   (integrations (handleToggle ''slack'' (handleToggle ''slack'' yes_page)) ! 0) ''enabled''
     = Some (boolean True) \<and>
   (integrations (handleToggle ''slack'' (handleToggle ''slack'' yes_page)) ! 0) ''enabled''
     \<noteq> (integrations yes_page ! 0) ''enabled''"
proof -
  have "reachable yes_page"
    unfolding yes_page_def by (rule first_render)
  moreover have twice:
    "(integrations (handleToggle ''slack'' (handleToggle ''slack'' yes_page)) ! 0) ''enabled''
       = Some (boolean True)"
    using yes_page_first by (simp add: handleToggle_def truthy_yes)
  ultimately show ?thesis
    using yes_page_first(2,3) by simp
qed

text \<open>
  C8, amended. For every integration that has the toggled id, \<open>handleToggle\<close> sets
  \<open>enabled\<close> to the negation of its truthiness and leaves \<open>status\<close> and \<open>config\<close> as they
  are; toggling twice leaves \<open>enabled\<close> at the truthiness of the original value, as a
  boolean, and a third toggle gives the record of the first again. Where the original
  \<open>enabled\<close> is a boolean (the type the \<open>Integration\<close> interface gives it), the toggle
  negates it, and toggling twice restores it and with it the whole record.
\<close>

theorem toggle_negates_enabled:
  assumes "j < length (integrations p)"
      and "(integrations p ! j) ''id'' = Some (str x)"
  shows "(integrations (handleToggle x p) ! j) ''enabled'' =
           Some (boolean (\<not> truthy ((integrations p ! j) ''enabled''))) \<and>
         (integrations (handleToggle x p) ! j) ''status'' = (integrations p ! j) ''status'' \<and>
         (integrations (handleToggle x p) ! j) ''config'' = (integrations p ! j) ''config'' \<and>
         (integrations (handleToggle x (handleToggle x p)) ! j) ''enabled'' =
           Some (boolean (truthy ((integrations p ! j) ''enabled''))) \<and>
         integrations (handleToggle x (handleToggle x (handleToggle x p))) ! j =
           integrations (handleToggle x p) ! j \<and>
         (\<forall>b. (integrations p ! j) ''enabled'' = Some (boolean b) \<longrightarrow>
            (integrations (handleToggle x p) ! j) ''enabled'' = Some (boolean (\<not> b)) \<and>
            (integrations (handleToggle x (handleToggle x p)) ! j) ''enabled'' = Some (boolean b) \<and>
            integrations (handleToggle x (handleToggle x p)) ! j = integrations p ! j)"
  using assms by (auto simp add: handleToggle_def fun_eq_iff)

theorem toggle_negates_enabled_witness:
  "2 < length (integrations (fresh_page ''admin'')) \<and>
   (integrations (fresh_page ''admin'') ! 2) ''id'' = Some (str ''email'') \<and>
   (integrations (fresh_page ''admin'') ! 2) ''enabled'' = Some (boolean True) \<and>
   (integrations (handleToggle ''email'' (fresh_page ''admin'')) ! 2) ''enabled''
     = Some (boolean False) \<and>
   (integrations (handleToggle ''email'' (fresh_page ''admin'')) ! 2) ''status''
     = Some (str ''connected'') \<and>
   (integrations (handleToggle ''email'' (handleToggle ''email'' (fresh_page ''admin''))) ! 2)
     ''enabled'' = Some (boolean True) \<and>
   integrations (handleToggle ''email'' (handleToggle ''email'' (fresh_page ''admin''))) ! 2
     = integrations (fresh_page ''admin'') ! 2 \<and>
   0 < length (integrations yes_page) \<and>
   (integrations yes_page ! 0) ''id'' = Some (str ''slack'') \<and>
   (integrations (handleToggle ''slack'' yes_page) ! 0) ''enabled'' = Some (boolean False) \<and>
   (integrations (handleToggle ''slack'' (handleToggle ''slack'' yes_page)) ! 0) ''enabled''
     = Some (boolean True)"
proof -
  have len: "2 < length (integrations (fresh_page ''admin''))"
    by (simp add: fresh_page_integrations defaultIntegrations_def)
  have email: "integrations (fresh_page ''admin'') ! 2 = email_integration"
    by (simp add: fresh_page_integrations defaultIntegrations_def)
  have ident: "(integrations (fresh_page ''admin'') ! 2) ''id'' = Some (str ''email'')"
    and enabled: "(integrations (fresh_page ''admin'') ! 2) ''enabled'' = Some (boolean True)"
    and status: "(integrations (fresh_page ''admin'') ! 2) ''status'' = Some (str ''connected'')"
    unfolding email by (simp_all add: email_integration_def)
  note on_email = toggle_negates_enabled [OF len ident]
  note on_yes = toggle_negates_enabled [OF yes_page_first(1,2)]
  from on_email enabled
  have "(integrations (handleToggle ''email'' (fresh_page ''admin'')) ! 2) ''enabled''
          = Some (boolean False)"
    and "(integrations (handleToggle ''email'' (fresh_page ''admin'')) ! 2) ''status''
          = Some (str ''connected'')"
    and "(integrations (handleToggle ''email'' (handleToggle ''email'' (fresh_page ''admin''))) ! 2)
          ''enabled'' = Some (boolean True)"
    and "integrations (handleToggle ''email'' (handleToggle ''email'' (fresh_page ''admin''))) ! 2
          = integrations (fresh_page ''admin'') ! 2"
    by (auto simp add: status)
  moreover from on_yes
  have "(integrations (handleToggle ''slack'' yes_page) ! 0) ''enabled'' = Some (boolean False)"
    and "(integrations (handleToggle ''slack'' (handleToggle ''slack'' yes_page)) ! 0) ''enabled''
          = Some (boolean True)"
    by (simp_all add: yes_page_first(3) truthy_yes)
  ultimately show ?thesis
    using len ident enabled yes_page_first(1,2) by simp
qed

text \<open>
  C7. For every integration of the current state, with a string id, and every value of
  the dialog's fields, \<open>configure\<close> completes in a state where each integration with that id
  has \<open>config\<close> equal to the values, \<open>status\<close> equal to \<open>connected\<close> and \<open>enabled\<close> equal to
  \<open>true\<close>, with its other properties and all other integrations unchanged. Repeating
  the same \<open>configure\<close> gives that state again. No other event of the page changes any
  \<open>status\<close>: only the save of \<open>configure\<close> can move one to \<open>connected\<close>.
\<close>

theorem configure_connects:
  assumes "selected \<in> set (integrations p)" and "selected ''id'' = Some (str x)"
  shows "\<exists>p'. configure selected v p = Inr p' \<and>
           length (integrations p') = length (integrations p) \<and>
           (\<forall>j < length (integrations p).
              ((integrations p ! j) ''id'' = Some (str x) \<longrightarrow>
                 (integrations p' ! j) ''config'' = Some v \<and>
                 (integrations p' ! j) ''status'' = Some (str ''connected'') \<and>
                 (integrations p' ! j) ''enabled'' = Some (boolean True) \<and>
                 (\<forall>k. k \<notin> {''config'', ''status'', ''enabled''} \<longrightarrow>
                    (integrations p' ! j) k = (integrations p ! j) k)) \<and>
              ((integrations p ! j) ''id'' \<noteq> Some (str x) \<longrightarrow>
                 integrations p' ! j = integrations p ! j)) \<and>
           configure selected v p' = Inr p' \<and>
           (\<forall>e. e \<noteq> SaveConfig \<longrightarrow>
              map (\<lambda>i. i ''status'') (integrations (step e p)) =
              map (\<lambda>i. i ''status'') (integrations p))"
  using assms
  by (auto simp add: configure_def handleSaveConfig_def handleConfigure_def setConfigValues_def
      step_status)

theorem configure_connects_witness:
  "slack \<in> set (integrations (fresh_page ''admin'')) \<and>
   slack ''id'' = Some (str ''slack'') \<and>
   (\<exists>p'. configure slack slack_values (fresh_page ''admin'') = Inr p' \<and>
      (integrations p' ! 0) ''config'' = Some slack_values \<and>
      (integrations p' ! 0) ''status'' = Some (str ''connected'') \<and>
      (integrations p' ! 0) ''enabled'' = Some (boolean True) \<and>
      integrations p' ! 1 = teams \<and>
      configure slack slack_values p' = Inr p')"
proof -
  have known: "slack \<in> set (integrations (fresh_page ''admin''))"
    by (simp add: fresh_page_integrations defaultIntegrations_def)
  have ident: "slack ''id'' = Some (str ''slack'')"
    by (simp add: slack_def)
  have first: "integrations (fresh_page ''admin'') ! 0 = slack"
    and second: "integrations (fresh_page ''admin'') ! 1 = teams"
    and len: "length (integrations (fresh_page ''admin'')) = 5"
    by (simp_all add: fresh_page_integrations defaultIntegrations_def)
  have other: "teams ''id'' \<noteq> Some (str ''slack'')"
    by (simp add: teams_def)
  from configure_connects [OF known ident, of slack_values, unfolded len]
  obtain p' where
    completed: "configure slack slack_values (fresh_page ''admin'') = Inr p'"
    and each: "\<forall>j<5.
              ((integrations (fresh_page ''admin'') ! j) ''id'' = Some (str ''slack'') \<longrightarrow>
                 (integrations p' ! j) ''config'' = Some slack_values \<and>
                 (integrations p' ! j) ''status'' = Some (str ''connected'') \<and>
                 (integrations p' ! j) ''enabled'' = Some (boolean True) \<and>
                 (\<forall>k. k \<notin> {''config'', ''status'', ''enabled''} \<longrightarrow>
                    (integrations p' ! j) k = (integrations (fresh_page ''admin'') ! j) k)) \<and>
              ((integrations (fresh_page ''admin'') ! j) ''id'' \<noteq> Some (str ''slack'') \<longrightarrow>
                 integrations p' ! j = integrations (fresh_page ''admin'') ! j)"
    and again: "configure slack slack_values p' = Inr p'"
    by blast
  from each [rule_format, of 0] ident
  have "(integrations p' ! 0) ''config'' = Some slack_values"
    and "(integrations p' ! 0) ''status'' = Some (str ''connected'')"
    and "(integrations p' ! 0) ''enabled'' = Some (boolean True)"
    unfolding first by simp_all
  moreover from each [rule_format, of 1] other
  have "integrations p' ! 1 = teams"
    unfolding second by simp
  ultimately show ?thesis
    using known ident completed again by blast
qed

subsection \<open>Roles\<close>

text \<open>
  C10. The handlers make no role check of their own. For any two users, signed in or not and
  of any role, every event of the page, \<open>toggle\<close> and \<open>configure\<close> among them, leaves the
  same integrations and the same storage when it starts from the same state; the whole
  resulting state differs in the user only. Roles act in two places: the switch and the
  Configure button of each card are disabled exactly when the user's role is neither
  \<open>admin\<close> nor \<open>analyst\<close>, and the route guard renders the page for exactly those roles.
\<close>

theorem no_role_check_in_handlers:
  "integrations (fst (dispatch e (p\<lparr>auth_user := u1\<rparr>, ls))) =
     integrations (fst (dispatch e (p\<lparr>auth_user := u2\<rparr>, ls))) \<and>
   snd (dispatch e (p\<lparr>auth_user := u1\<rparr>, ls)) = snd (dispatch e (p\<lparr>auth_user := u2\<rparr>, ls)) \<and>
   (case toggle x (p\<lparr>auth_user := u1\<rparr>) of
      Inl err \<Rightarrow> False
    | Inr p1 \<Rightarrow> toggle x (p\<lparr>auth_user := u2\<rparr>) = Inr (p1\<lparr>auth_user := u2\<rparr>)) \<and>
   (case configure selected v (p\<lparr>auth_user := u1\<rparr>) of
      Inl err \<Rightarrow> False
    | Inr p1 \<Rightarrow> configure selected v (p\<lparr>auth_user := u2\<rparr>) = Inr (p1\<lparr>auth_user := u2\<rparr>)) \<and>
   (switch_disabled p \<longleftrightarrow>
      (\<forall>u. auth_user p = Some u \<longrightarrow> role u \<noteq> ''admin'' \<and> role u \<noteq> ''analyst'')) \<and>
   (configure_button_disabled p \<longleftrightarrow> switch_disabled p) \<and>
   (integrations_route (auth_user p) = Fragment Integrations \<longleftrightarrow> \<not> switch_disabled p)"
  by (auto simp add: dispatch_def Let_def step_ignores_user sets_integrations_ignores_user
      toggle_def configure_def handleToggle_def handleSaveConfig_def handleConfigure_def
      setConfigValues_def switch_disabled_def configure_button_disabled_def canModify_def
      integrations_route_def ProtectedRoute_def array_includes_def
      split: option.splits)

theorem no_role_check_in_handlers_witness:
  "integrations (fst (dispatch (Toggle ''email'') (fresh_page ''viewer'', Map.empty))) =
     integrations (fst (dispatch (Toggle ''email'') (fresh_page ''admin'', Map.empty))) \<and>
   snd (dispatch (Toggle ''email'') (fresh_page ''viewer'', Map.empty)) =
     snd (dispatch (Toggle ''email'') (fresh_page ''admin'', Map.empty)) \<and>
   switch_disabled (fresh_page ''viewer'') \<and>
   \<not> switch_disabled (fresh_page ''admin'') \<and>
   integrations_route (auth_user (fresh_page ''viewer'')) \<noteq> Fragment Integrations"
proof -
  have as_viewer: "fresh_page ''viewer'' =
      (fresh_page ''admin'')\<lparr>auth_user := Some (user_with_role ''viewer'')\<rparr>"
    and as_admin: "fresh_page ''admin'' =
      (fresh_page ''admin'')\<lparr>auth_user := Some (user_with_role ''admin'')\<rparr>"
    by (simp_all add: fresh_page_def initial_page_def)
  have viewer: "auth_user (fresh_page ''viewer'') = Some (user_with_role ''viewer'')"
    and admin: "auth_user (fresh_page ''admin'') = Some (user_with_role ''admin'')"
    by (simp_all add: fresh_page_def initial_page_def)
  have roles: "role (user_with_role ''viewer'') = ''viewer''"
    "role (user_with_role ''admin'') = ''admin''"
    by (simp_all add: user_with_role_def)
  note same = no_role_check_in_handlers [where e = "Toggle ''email''"
      and p = "fresh_page ''admin''" and ls = Map.empty
      and ?u1.0 = "Some (user_with_role ''viewer'')" and ?u2.0 = "Some (user_with_role ''admin'')"]
  note for_viewer = no_role_check_in_handlers [where p = "fresh_page ''viewer''"]
  note for_admin = no_role_check_in_handlers [where p = "fresh_page ''admin''"]
  have "switch_disabled (fresh_page ''viewer'')"
    using for_viewer viewer roles by simp
  moreover have "\<not> switch_disabled (fresh_page ''admin'')"
    using for_admin admin roles by simp
  moreover have "integrations_route (auth_user (fresh_page ''viewer'')) \<noteq> Fragment Integrations"
    using for_viewer viewer roles by simp
  moreover have
    "integrations (fst (dispatch (Toggle ''email'') (fresh_page ''viewer'', Map.empty))) =
       integrations (fst (dispatch (Toggle ''email'') (fresh_page ''admin'', Map.empty)))"
    "snd (dispatch (Toggle ''email'') (fresh_page ''viewer'', Map.empty)) =
       snd (dispatch (Toggle ''email'') (fresh_page ''admin'', Map.empty))"
    using same as_viewer as_admin by simp_all
  ultimately show ?thesis by simp
qed

end
